theory Spec2Isabelle
  imports
    Main
    "HOL-Library.Char_ord"
    "HOL-Library.List_Lexorder"
    "HOL-Library.Multiset"
begin

section \<open>Data model\<close>

text \<open>
  The command line front end of \<^verbatim>\<open>perf\<close> (\<^verbatim>\<open>perf/__main__.py\<close>) works on a
  \<^verbatim>\<open>Benchmarks\<close> object: a list of loaded benchmark suites. A suite has the file name
  it was loaded from and an ordered sequence of benchmarks; a benchmark has an optional
  name (\<^verbatim>\<open>get_name()\<close> may return \<^verbatim>\<open>None\<close>) and its runs. The code modelled here
  never looks into the runs, so they are a type parameter.
\<close>

record 'r benchmark =
  get_name :: "string option"
  runs :: 'r

record 'r suite =
  filename :: string
  benchmarks :: "'r benchmark list"

text \<open>
  Failures of the Python code are values. \<^verbatim>\<open>IndexError\<close> and \<^verbatim>\<open>KeyError\<close> are the
  Python exceptions; \<open>LoadError file\<close> is whatever \<^verbatim>\<open>perf.BenchmarkSuite.load\<close> raises
  on a file it cannot read. The other three are the fatal exits of the command line: each
  prints a message and calls \<^verbatim>\<open>sys.exit(1)\<close>.
  \<^item> \<open>MissingBenchmarkError file name\<close>: \<^verbatim>\<open>fatal_missing_benchmark(suite, name)\<close>,
    "ERROR: The benchmark suite \<open>file\<close> doesn't contain a benchmark called \<open>name\<close>";
  \<^item> \<open>InsufficientSuitesError\<close>: "ERROR: need at least two benchmark files";
  \<^item> \<open>UnsupportedConfigError\<close>: "ERROR: by_speed only works on two benchmark files".
\<close>

datatype error =
    IndexError
  | KeyError
  | LoadError string
  | MissingBenchmarkError string string
  | InsufficientSuitesError
  | UnsupportedConfigError

section \<open>Common names\<close>

text \<open>
  \<^verbatim>\<open>Benchmarks._group_by_name_names\<close>. The inner function collects the names of a suite
  that are truthy in Python: neither \<^verbatim>\<open>None\<close> nor the empty string.
\<close>

definition suite_to_name_set :: "'r suite \<Rightarrow> string set" where
  "suite_to_name_set suite =
     fold (\<lambda>bench result.
             case get_name bench of
               None \<Rightarrow> result
             | Some name \<Rightarrow> if name \<noteq> [] then insert name result else result)
          (benchmarks suite) {}"

text \<open>
  \<^verbatim>\<open>names = suite_to_name_set(self.suites[0])\<close> raises \<^verbatim>\<open>IndexError\<close> on an empty
  collection; the loop over \<^verbatim>\<open>self.suites[1:]\<close> intersects in place.
\<close>

fun group_by_name_names :: "'r suite list \<Rightarrow> error + string set" where
  "group_by_name_names [] = Inl IndexError"
| "group_by_name_names (first # rest) =
     Inr (fold (\<lambda>suite names. names \<inter> suite_to_name_set suite) rest
            (suite_to_name_set first))"

section \<open>Display labels\<close>

text \<open>
  \<^verbatim>\<open>format_filename_func\<close> uses \<^verbatim>\<open>os.path.basename\<close> and \<^verbatim>\<open>os.path.splitext\<close> of the
  Python standard library. They are given here as \<^verbatim>\<open>posixpath\<close> defines them:
  \<^verbatim>\<open>basename(p)\<close> is \<^verbatim>\<open>p[p.rfind('/') + 1:]\<close>, and \<^verbatim>\<open>splitext(p)\<close> splits at the last
  dot when that dot comes after the last slash and some character between the slash and
  the dot is not a dot; otherwise the extension is empty.
\<close>

definition rfind :: "string \<Rightarrow> char \<Rightarrow> int" where
  "rfind p c =
     (if c \<in> set p
      then int (length p) - 1 - int (length (takeWhile (\<lambda>x. x \<noteq> c) (rev p)))
      else - 1)"

definition basename :: "string \<Rightarrow> string" where
  "basename p = drop (nat (rfind p CHR ''/'' + 1)) p"

definition splitext :: "string \<Rightarrow> string \<times> string" where
  "splitext p =
     (let sepIndex = rfind p CHR ''/'';
          dotIndex = rfind p CHR ''.''
      in if dotIndex > sepIndex \<and>
            list_ex (\<lambda>c. c \<noteq> CHR ''.'')
              (take (nat (dotIndex - (sepIndex + 1))) (drop (nat (sepIndex + 1)) p))
         then (take (nat dotIndex) p, drop (nat dotIndex) p)
         else (p, []))"

text \<open>
  \<^verbatim>\<open>format_filename_func(suites)\<close> returns the labelling function: the identity when the
  set of base names is smaller than the list of file names, \<^verbatim>\<open>os.path.basename\<close> when the
  set of stems is smaller than the set of base names, and the stem of the base name
  otherwise.
\<close>

definition format_filename_func :: "'r suite list \<Rightarrow> string \<Rightarrow> string" where
  "format_filename_func suites =
     (let filenames = map filename suites;
          base_filenames = basename ` set filenames
      in if card base_filenames \<noteq> length filenames then (\<lambda>path. path)
         else
           let noext_filenames = (\<lambda>path. fst (splitext path)) ` base_filenames
           in if card noext_filenames \<noteq> card base_filenames then basename
              else (\<lambda>path. fst (splitext (basename path))))"

section \<open>The collection of suites\<close>

text \<open>\<^verbatim>\<open>Benchmarks.get_nsuite\<close> and \<^verbatim>\<open>Benchmarks.__len__\<close>.\<close>

definition get_nsuite :: "'r suite list \<Rightarrow> nat" where
  "get_nsuite suites = length suites"

definition len :: "'r suite list \<Rightarrow> nat" where
  "len suites = sum_list (map (\<lambda>suite. length (benchmarks suite)) suites)"

text \<open>
  Modelled from the spec: \<^verbatim>\<open>BenchmarkSuite._convert_include_benchmark(name)\<close> of the
  \<^verbatim>\<open>perf\<close> package is not part of the sources at hand. The specification says that it
  retains only the benchmark matching \<open>name\<close> and fails when \<open>name\<close> is absent from the
  suite; the caller catches \<^verbatim>\<open>KeyError\<close>. A failed call leaves the suite as it was.
\<close>

definition convert_include_benchmark :: "'r suite \<Rightarrow> string \<Rightarrow> error + 'r suite" where
  "convert_include_benchmark suite name =
     (let kept = filter (\<lambda>bench. get_name bench = Some name) (benchmarks suite)
      in if kept = [] then Inl KeyError else Inr (suite\<lparr>benchmarks := kept\<rparr>))"

text \<open>
  \<^verbatim>\<open>fatal_missing_benchmark(suite, name)\<close> prints the message naming the suite's file and
  the requested name, and exits.
\<close>

definition fatal_missing_benchmark :: "'r suite \<Rightarrow> string \<Rightarrow> error" where
  "fatal_missing_benchmark suite name = MissingBenchmarkError (filename suite) name"

text \<open>
  \<^verbatim>\<open>Benchmarks.include_benchmark(name)\<close> narrows the suites in place, one after the other.
  The model returns the outcome together with the state of the collection at that moment:
  the suites before the failing one have already been narrowed.
\<close>

fun include_benchmark :: "'r suite list \<Rightarrow> string \<Rightarrow> (error + unit) \<times> 'r suite list" where
  "include_benchmark [] name = (Inr (), [])"
| "include_benchmark (suite # suites) name =
     (case convert_include_benchmark suite name of
        Inl e \<Rightarrow> (Inl (fatal_missing_benchmark suite name), suite # suites)
      | Inr suite' \<Rightarrow>
          (case include_benchmark suites name of
             (r, suites') \<Rightarrow> (r, suite' # suites')))"

section \<open>The cross-suite iterator\<close>

record 'r DataItem =
  di_suite :: "'r suite"
  di_filename :: string
  di_benchmark :: "'r benchmark"
  di_name :: string
  di_title :: "string option"
  di_is_last :: bool

text \<open>
  \<^verbatim>\<open>Benchmarks.__iter__\<close>. The generator is finite, so it is the list of the items it
  yields. \<^verbatim>\<open>get_benchmark_name\<close> comes from \<^verbatim>\<open>perf._cli\<close>, which is not part of the
  sources at hand: it is a parameter, the function giving the display name of a benchmark.
\<close>

definition iter :: "('r benchmark \<Rightarrow> string) \<Rightarrow> 'r suite list \<Rightarrow> 'r DataItem list" where
  "iter get_benchmark_name suites =
     (let format_filename = format_filename_func suites;
          show_name = (len suites > 1);
          show_filename = (get_nsuite suites > 1)
      in concat (map (\<lambda>(suite_index, suite).
           let fname = format_filename (filename suite);
               last_suite = (suite_index = length suites - 1);
               benchs = benchmarks suite
           in map (\<lambda>(bench_index, benchmark).
                let name = get_benchmark_name benchmark;
                    title = (if show_name
                             then (if show_filename then Some (fname @ '':'' @ name)
                                   else Some name)
                             else None);
                    last_benchmark = (bench_index = length benchs - 1);
                    is_last = (last_suite \<and> last_benchmark)
                in \<lparr>di_suite = suite, di_filename = fname, di_benchmark = benchmark,
                    di_name = name, di_title = title, di_is_last = is_last\<rparr>)
              (enumerate 0 benchs))
         (enumerate 0 suites)))"

section \<open>Grouping by name\<close>

record 'r GroupItem =
  gi_benchmark :: "'r benchmark"
  gi_title :: "string option"
  gi_filename :: string

record 'r GroupItem2 =
  g2_name :: string
  g2_benchmarks :: "'r GroupItem list"
  g2_is_last :: bool

text \<open>
  Modelled from the spec: \<^verbatim>\<open>BenchmarkSuite.get_benchmark(name)\<close> of the \<^verbatim>\<open>perf\<close> package
  is not part of the sources at hand. The specification identifies a benchmark by its
  name within its suite and has the grouping collect the matching benchmark of every
  suite: the first benchmark of the suite with that name, \<^verbatim>\<open>KeyError\<close> when there is none.
\<close>

definition get_benchmark :: "'r suite \<Rightarrow> string \<Rightarrow> error + 'r benchmark" where
  "get_benchmark suite name =
     (case find (\<lambda>bench. get_name bench = Some name) (benchmarks suite) of
        None \<Rightarrow> Inl KeyError
      | Some bench \<Rightarrow> Inr bench)"

text \<open>The inner loop of \<^verbatim>\<open>Benchmarks.group_by_name\<close>, over the suites.\<close>

fun group_items ::
  "(string \<Rightarrow> string) \<Rightarrow> bool \<Rightarrow> bool \<Rightarrow> string \<Rightarrow> 'r suite list \<Rightarrow> error + 'r GroupItem list"
where
  "group_items format_filename show_name show_filename name [] = Inr []"
| "group_items format_filename show_name show_filename name (suite # suites) =
     (case get_benchmark suite name of
        Inl e \<Rightarrow> Inl e
      | Inr benchmark \<Rightarrow>
          let fname = format_filename (filename suite);
              title = (if show_name
                       then (if \<not> show_filename then Some name else Some fname)
                       else None)
          in case group_items format_filename show_name show_filename name suites of
               Inl e \<Rightarrow> Inl e
             | Inr items \<Rightarrow>
                 Inr (\<lparr>gi_benchmark = benchmark, gi_title = title, gi_filename = fname\<rparr>
                      # items))"

text \<open>The outer loop, over \<^verbatim>\<open>enumerate(names)\<close>; \<open>n\<close> is \<^verbatim>\<open>len(names)\<close>.\<close>

fun groups_loop ::
  "(string \<Rightarrow> string) \<Rightarrow> bool \<Rightarrow> bool \<Rightarrow> 'r suite list \<Rightarrow> nat \<Rightarrow> (nat \<times> string) list
     \<Rightarrow> error + 'r GroupItem2 list"
where
  "groups_loop format_filename show_name show_filename suites n [] = Inr []"
| "groups_loop format_filename show_name show_filename suites n ((index, name) # rest) =
     (case group_items format_filename show_name show_filename name suites of
        Inl e \<Rightarrow> Inl e
      | Inr benchs \<Rightarrow>
          (case groups_loop format_filename show_name show_filename suites n rest of
             Inl e \<Rightarrow> Inl e
           | Inr groups \<Rightarrow>
               Inr (\<lparr>g2_name = name, g2_benchmarks = benchs, g2_is_last = (index = n - 1)\<rparr>
                    # groups)))"

text \<open>
  \<^verbatim>\<open>Benchmarks.group_by_name\<close>. \<^verbatim>\<open>sorted(names)\<close> orders the strings lexicographically by
  character code.
\<close>

definition group_by_name :: "'r suite list \<Rightarrow> error + 'r GroupItem2 list" where
  "group_by_name suites =
     (let format_filename = format_filename_func suites;
          show_filename = (get_nsuite suites > 1)
      in case group_by_name_names suites of
           Inl e \<Rightarrow> Inl e
         | Inr nameset \<Rightarrow>
             let names = sorted_list_of_set nameset;
                 show_name = (length names > 1)
             in groups_loop format_filename show_name show_filename suites
                  (length names) (enumerate 0 names))"

text \<open>
  \<^verbatim>\<open>Benchmarks.group_by_name_ignored\<close>. The generator computes the common names when it
  is first advanced, so an empty collection fails there; otherwise it is the list of the
  pairs it yields. A name that is \<^verbatim>\<open>None\<close> is in no set of strings.
\<close>

definition group_by_name_ignored ::
  "'r suite list \<Rightarrow> error + ('r suite \<times> 'r benchmark list) list" where
  "group_by_name_ignored suites =
     (case group_by_name_names suites of
        Inl e \<Rightarrow> Inl e
      | Inr names \<Rightarrow>
          Inr (concat (map (\<lambda>suite.
                 let ignored = filter (\<lambda>bench.
                                 case get_name bench of
                                   None \<Rightarrow> True
                                 | Some name \<Rightarrow> name \<notin> names)
                               (benchmarks suite)
                 in if ignored \<noteq> [] then [(suite, ignored)] else [])
               suites)))"

section \<open>The comparison command\<close>

text \<open>
  The fields of the parsed command line that \<^verbatim>\<open>cmd_compare\<close> and \<^verbatim>\<open>load_benchmarks\<close>
  read. Only the \<^verbatim>\<open>compare_to\<close> sub-command has the \<^verbatim>\<open>--group-by-speed\<close> flag.
\<close>

record args =
  args_action :: string
  args_group_by_speed :: bool
  args_name :: "string option"
  args_filenames :: "string list"

text \<open>
  \<^verbatim>\<open>Benchmarks.load_benchmark_suites\<close>. \<^verbatim>\<open>perf.BenchmarkSuite.load\<close> reads a file: it is
  the parameter \<open>load\<close>, which gives the suite of a file name or fails.
\<close>

fun load_benchmark_suites ::
  "(string \<Rightarrow> error + 'r suite) \<Rightarrow> 'r suite list \<Rightarrow> string list \<Rightarrow> error + 'r suite list"
where
  "load_benchmark_suites load suites [] = Inr suites"
| "load_benchmark_suites load suites (path # paths) =
     (case load path of
        Inl e \<Rightarrow> Inl e
      | Inr suite \<Rightarrow> load_benchmark_suites load (suites @ [suite]) paths)"

text \<open>\<^verbatim>\<open>load_benchmarks(args)\<close>: \<^verbatim>\<open>if args.name\<close> holds for a non-empty string.\<close>

definition load_benchmarks ::
  "(string \<Rightarrow> error + 'r suite) \<Rightarrow> args \<Rightarrow> error + 'r suite list" where
  "load_benchmarks load a =
     (case load_benchmark_suites load [] (args_filenames a) of
        Inl e \<Rightarrow> Inl e
      | Inr data \<Rightarrow>
          (case args_name a of
             None \<Rightarrow> Inr data
           | Some name \<Rightarrow>
               if name = [] then Inr data
               else (case include_benchmark data name of
                       (Inl e, data') \<Rightarrow> Inl e
                     | (Inr u, data') \<Rightarrow> Inr data')))"

text \<open>
  \<^verbatim>\<open>cmd_compare(args)\<close> either exits or calls
  \<^verbatim>\<open>compare_suites(data, args.action == 'compare', by_speed, args)\<close>. \<^verbatim>\<open>compare_suites\<close>
  belongs to \<^verbatim>\<open>perf._compare\<close>, which is not part of the sources at hand: the model
  stops at the call and records its arguments.
\<close>

record 'r compare_suites_call =
  cs_data :: "'r suite list"
  cs_sort_benchmarks :: bool
  cs_by_speed :: bool

definition cmd_compare ::
  "(string \<Rightarrow> error + 'r suite) \<Rightarrow> args \<Rightarrow> error + 'r compare_suites_call" where
  "cmd_compare load a =
     (case load_benchmarks load a of
        Inl e \<Rightarrow> Inl e
      | Inr data \<Rightarrow>
          if get_nsuite data < 2 then Inl InsufficientSuitesError
          else
            let by_speed = (if args_action a = ''compare_to''
                            then args_group_by_speed a else False)
            in if by_speed \<and> get_nsuite data \<noteq> 2 then Inl UnsupportedConfigError
               else Inr \<lparr>cs_data = data,
                         cs_sort_benchmarks = (args_action a = ''compare''),
                         cs_by_speed = by_speed\<rparr>)"

section \<open>Example collections\<close>

text \<open>
  Concrete suites on which the theorems below are evaluated. The runs are numbers that
  tell the benchmarks apart. Both result files hold an anonymous benchmark.
\<close>

definition suite_py2 :: "nat suite" where
  "suite_py2 =
     \<lparr>filename = ''results/py2.json'',
      benchmarks = [\<lparr>get_name = Some ''telco'', runs = 1\<rparr>,
                    \<lparr>get_name = Some ''call_simple'', runs = 2\<rparr>,
                    \<lparr>get_name = None, runs = 3\<rparr>]\<rparr>"

definition suite_py3 :: "nat suite" where
  "suite_py3 =
     \<lparr>filename = ''results/py3.json'',
      benchmarks = [\<lparr>get_name = Some ''call_simple'', runs = 4\<rparr>,
                    \<lparr>get_name = None, runs = 5\<rparr>,
                    \<lparr>get_name = Some ''telco'', runs = 6\<rparr>,
                    \<lparr>get_name = Some ''go'', runs = 7\<rparr>]\<rparr>"

definition suite_single :: "nat suite" where
  "suite_single =
     \<lparr>filename = ''single.json'',
      benchmarks = [\<lparr>get_name = Some ''telco'', runs = 8\<rparr>]\<rparr>"

definition display_name :: "nat benchmark \<Rightarrow> string" where
  "display_name bench = (case get_name bench of None \<Rightarrow> ''<unnamed>'' | Some name \<Rightarrow> name)"

definition example_load :: "string \<Rightarrow> error + nat suite" where
  "example_load path =
     (if path = ''results/py2.json'' then Inr suite_py2
      else if path = ''results/py3.json'' then Inr suite_py3
      else if path = ''single.json'' then Inr suite_single
      else Inl (LoadError path))"

definition args_by_speed :: args where
  "args_by_speed =
     \<lparr>args_action = ''compare_to'', args_group_by_speed = True, args_name = None,
      args_filenames = [''results/py2.json'', ''results/py3.json'', ''single.json'']\<rparr>"

definition args_one_file :: args where
  "args_one_file =
     \<lparr>args_action = ''compare'', args_group_by_speed = False, args_name = Some ''telco'',
      args_filenames = [''results/py2.json'']\<rparr>"

definition args_by_speed_one_file :: args where
  "args_by_speed_one_file =
     \<lparr>args_action = ''compare_to'', args_group_by_speed = True, args_name = None,
      args_filenames = [''single.json'']\<rparr>"

section \<open>Properties of the common names\<close>

lemma fold_names_acc:
  "fold (\<lambda>bench result.
           case get_name bench of
             None \<Rightarrow> result
           | Some name \<Rightarrow> if name \<noteq> [] then insert name result else result) bs acc
   = acc \<union> {name. name \<noteq> [] \<and> (\<exists>b \<in> set bs. get_name b = Some name)}"
proof (induction bs arbitrary: acc)
  case Nil
  show ?case by simp
next
  case (Cons b bs)
  show ?case
    by (cases "get_name b") (auto simp: Cons.IH)
qed

lemma suite_to_name_set_eq:
  "suite_to_name_set s =
     {name. name \<noteq> [] \<and> (\<exists>b \<in> set (benchmarks s). get_name b = Some name)}"
  unfolding suite_to_name_set_def by (simp add: fold_names_acc)

lemma finite_suite_to_name_set: "finite (suite_to_name_set s)"
proof -
  have "suite_to_name_set s \<subseteq> the ` get_name ` set (benchmarks s)"
    by (force simp: suite_to_name_set_eq)
  then show ?thesis by (rule finite_subset) simp
qed

lemma fold_inter_acc:
  "fold (\<lambda>suite names. names \<inter> suite_to_name_set suite) ss acc
   = acc \<inter> (\<Inter>s \<in> set ss. suite_to_name_set s)"
  by (induction ss arbitrary: acc) auto

lemma group_by_name_names_Cons:
  "group_by_name_names (s # ss) = Inr (\<Inter>x \<in> set (s # ss). suite_to_name_set x)"
  by (simp add: fold_inter_acc)

lemma group_by_name_names_Inter:
  "ss \<noteq> [] \<Longrightarrow> group_by_name_names ss = Inr (\<Inter>s \<in> set ss. suite_to_name_set s)"
  by (cases ss) (simp_all add: fold_inter_acc)

text \<open>
  Claim C1. For a collection of at least one suite, \<^verbatim>\<open>_group_by_name_names\<close> returns
  exactly the intersection, over the suites, of the set of non-empty names of the suite's
  benchmarks; and any reordering of the suites gives the same result.
\<close>

theorem group_by_name_names_intersection:
  assumes "suites \<noteq> []"
  shows "group_by_name_names suites =
           Inr (\<Inter>s \<in> set suites.
                  {name. name \<noteq> [] \<and> (\<exists>b \<in> set (benchmarks s). get_name b = Some name)})
         \<and> (\<forall>suites'. mset suites' = mset suites \<longrightarrow>
               group_by_name_names suites' = group_by_name_names suites)"
proof
  show "group_by_name_names suites =
           Inr (\<Inter>s \<in> set suites.
                  {name. name \<noteq> [] \<and> (\<exists>b \<in> set (benchmarks s). get_name b = Some name)})"
    using assms by (simp add: group_by_name_names_Inter suite_to_name_set_eq)
next
  show "\<forall>suites'. mset suites' = mset suites \<longrightarrow>
               group_by_name_names suites' = group_by_name_names suites"
  proof (intro allI impI)
    fix suites' :: "'a suite list"
    assume perm: "mset suites' = mset suites"
    then have same: "set suites' = set suites" by (rule mset_eq_setD)
    with assms have "suites' \<noteq> []" by auto
    then show "group_by_name_names suites' = group_by_name_names suites"
      using assms same by (simp add: group_by_name_names_Inter)
  qed
qed

text \<open>The two result files have the names \<open>call_simple\<close> and \<open>telco\<close> in common, in either order.\<close>

theorem group_by_name_names_intersection_witness:
  "[suite_py2, suite_py3] \<noteq> []
   \<and> group_by_name_names [suite_py2, suite_py3] = Inr {''call_simple'', ''telco''}
   \<and> group_by_name_names [suite_py3, suite_py2] = group_by_name_names [suite_py2, suite_py3]"
proof -
  have ne: "[suite_py2, suite_py3] \<noteq> []" by simp
  note t = group_by_name_names_intersection [OF ne]
  have perm: "mset [suite_py3, suite_py2] = mset [suite_py2, suite_py3]" by simp
  from t perm
  have "group_by_name_names [suite_py3, suite_py2] = group_by_name_names [suite_py2, suite_py3]"
    by blast
  moreover have "group_by_name_names [suite_py2, suite_py3] = Inr {''call_simple'', ''telco''}"
    by code_simp
  ultimately show ?thesis by simp
qed

text \<open>
  Claim C9, as stated: with no suite loaded the common names would be the empty set.
  The code does not return a set there.
\<close>

theorem group_by_name_names_no_suite_counterexample:
  "group_by_name_names ([] :: nat suite list) \<noteq> Inr {}"
  by simp

text \<open>
  Claim C9, amended. With no suite loaded, \<^verbatim>\<open>self.suites[0]\<close> raises \<^verbatim>\<open>IndexError\<close>:
  \<^verbatim>\<open>_group_by_name_names\<close> returns no set at all.
\<close>

theorem group_by_name_names_no_suite:
  "group_by_name_names ([] :: 'r suite list) = Inl IndexError"
  by simp

section \<open>Properties of the display labels\<close>

lemma card_distinct_map:
  "card (f ` set xs) \<noteq> length xs \<longleftrightarrow> \<not> distinct (map f xs)"
  by (metis card_distinct distinct_card length_map set_map)

lemma format_filename_func_tiers:
  "format_filename_func suites =
     (if \<not> distinct (map (\<lambda>s. basename (filename s)) suites) then (\<lambda>path. path)
      else if \<not> inj_on (\<lambda>b. fst (splitext b)) (set (map (\<lambda>s. basename (filename s)) suites))
           then basename
           else (\<lambda>path. fst (splitext (basename path))))"
proof -
  have a: "card (basename ` set (map filename suites)) \<noteq> length (map filename suites)
           \<longleftrightarrow> \<not> distinct (map (\<lambda>s. basename (filename s)) suites)"
    unfolding card_distinct_map by (simp add: comp_def)
  have b: "card ((\<lambda>path. fst (splitext path)) ` basename ` set (map filename suites))
             \<noteq> card (basename ` set (map filename suites))
           \<longleftrightarrow> \<not> inj_on (\<lambda>b. fst (splitext b)) (set (map (\<lambda>s. basename (filename s)) suites))"
    by (simp add: inj_on_iff_eq_card image_image)
  show ?thesis
    unfolding format_filename_func_def Let_def a b by simp
qed

lemma format_filename_func_inj:
  "inj_on (format_filename_func suites) (set (map filename suites))"
proof (cases "distinct (map (\<lambda>s. basename (filename s)) suites)")
  case False
  then show ?thesis by (simp add: format_filename_func_tiers)
next
  case True
  then have "distinct (map basename (map filename suites))" by (simp add: comp_def)
  then have ib: "inj_on basename (set (map filename suites))"
    by (simp only: distinct_map)
  show ?thesis
  proof (cases "inj_on (\<lambda>b. fst (splitext b)) (set (map (\<lambda>s. basename (filename s)) suites))")
    case False
    with True ib show ?thesis by (simp add: format_filename_func_tiers)
  next
    case stem: True
    have img: "basename ` set (map filename suites) = set (map (\<lambda>s. basename (filename s)) suites)"
      by (simp add: image_image)
    from ib stem have "inj_on ((\<lambda>b. fst (splitext b)) \<circ> basename) (set (map filename suites))"
      by (intro comp_inj_on) (simp_all only: img)
    then have "inj_on (\<lambda>path. fst (splitext (basename path))) (set (map filename suites))"
      by (simp add: comp_def)
    with True stem show ?thesis by (simp add: format_filename_func_tiers)
  qed
qed

text \<open>
  Claim C4. The labels of two distinct file names of the collection differ, and the
  labelling function follows the three tiers: full paths when two suites share a base
  name; base names when two base names share a stem; stems otherwise.
\<close>

theorem format_filename_func_injective:
  "(\<forall>p \<in> set (map filename suites). \<forall>q \<in> set (map filename suites).
      p \<noteq> q \<longrightarrow> format_filename_func suites p \<noteq> format_filename_func suites q)
   \<and> format_filename_func suites =
       (if \<not> distinct (map (\<lambda>s. basename (filename s)) suites) then (\<lambda>path. path)
        else if \<not> inj_on (\<lambda>b. fst (splitext b))
                     (set (map (\<lambda>s. basename (filename s)) suites))
             then basename
             else (\<lambda>path. fst (splitext (basename path))))"
proof
  show "\<forall>p \<in> set (map filename suites). \<forall>q \<in> set (map filename suites).
      p \<noteq> q \<longrightarrow> format_filename_func suites p \<noteq> format_filename_func suites q"
    using format_filename_func_inj [of suites] unfolding inj_on_def by blast
next
  show "format_filename_func suites =
       (if \<not> distinct (map (\<lambda>s. basename (filename s)) suites) then (\<lambda>path. path)
        else if \<not> inj_on (\<lambda>b. fst (splitext b))
                     (set (map (\<lambda>s. basename (filename s)) suites))
             then basename
             else (\<lambda>path. fst (splitext (basename path))))"
    by (rule format_filename_func_tiers)
qed

text \<open>The two result files are told apart by their stems.\<close>

theorem format_filename_func_injective_witness:
  "format_filename_func [suite_py2, suite_py3] ''results/py2.json''
     \<noteq> format_filename_func [suite_py2, suite_py3] ''results/py3.json''
   \<and> map (format_filename_func [suite_py2, suite_py3])
         [''results/py2.json'', ''results/py3.json''] = [''py2'', ''py3'']"
proof (rule conjI)
  have p: "''results/py2.json'' \<in> set (map filename [suite_py2, suite_py3])"
    by (simp add: suite_py2_def)
  have q: "''results/py3.json'' \<in> set (map filename [suite_py2, suite_py3])"
    by (simp add: suite_py3_def)
  have ne: "''results/py2.json'' \<noteq> ''results/py3.json''" by simp
  show "format_filename_func [suite_py2, suite_py3] ''results/py2.json''
     \<noteq> format_filename_func [suite_py2, suite_py3] ''results/py3.json''"
    by (rule format_filename_func_injective
          [of "[suite_py2, suite_py3]", THEN conjunct1, rule_format, OF p q ne])
next
  show "map (format_filename_func [suite_py2, suite_py3])
         [''results/py2.json'', ''results/py3.json''] = [''py2'', ''py3'']"
    by code_simp
qed

section \<open>Properties of the cross-suite iterator\<close>

lemma iter_item:
  assumes "item \<in> set (iter gbn suites)"
  shows "\<exists>suite \<in> set suites. \<exists>b \<in> set (benchmarks suite).
           di_suite item = suite \<and> di_benchmark item = b
           \<and> di_filename item = format_filename_func suites (filename suite)
           \<and> di_name item = gbn b
           \<and> di_title item =
               (if 1 < len suites
                then (if 1 < get_nsuite suites
                      then Some (format_filename_func suites (filename suite) @ '':'' @ gbn b)
                      else Some (gbn b))
                else None)"
proof -
  from assms obtain i suite j b where
    s: "(i, suite) \<in> set (enumerate 0 suites)" and
    b: "(j, b) \<in> set (enumerate 0 (benchmarks suite))" and
    item: "item = \<lparr>di_suite = suite,
             di_filename = format_filename_func suites (filename suite),
             di_benchmark = b, di_name = gbn b,
             di_title = (if 1 < len suites
                then (if 1 < get_nsuite suites
                      then Some (format_filename_func suites (filename suite) @ '':'' @ gbn b)
                      else Some (gbn b))
                else None),
             di_is_last = (i = length suites - 1 \<and> j = length (benchmarks suite) - 1)\<rparr>"
    unfolding iter_def Let_def by auto
  from s have "suite \<in> set suites" by (auto simp: in_set_enumerate_eq)
  moreover from b have "b \<in> set (benchmarks suite)" by (auto simp: in_set_enumerate_eq)
  ultimately show ?thesis using item by auto
qed

lemma len_ge_benchmarks:
  "suite \<in> set suites \<Longrightarrow> length (benchmarks suite) \<le> len suites"
  unfolding len_def by (induction suites) auto

lemma length_le_len:
  "\<forall>s \<in> set suites. benchmarks s \<noteq> [] \<Longrightarrow> length suites \<le> len suites"
proof (induction suites)
  case Nil
  show ?case by (simp add: len_def)
next
  case (Cons s suites)
  then have "1 \<le> length (benchmarks s)" by (cases "benchmarks s") simp_all
  moreover from Cons have "length suites \<le> len suites" by simp
  ultimately show ?case by (simp add: len_def)
qed

lemma len_one_iff:
  assumes "\<forall>s \<in> set suites. benchmarks s \<noteq> []"
  shows "len suites = 1 \<longleftrightarrow> (\<exists>s. suites = [s] \<and> length (benchmarks s) = 1)"
proof
  assume one: "len suites = 1"
  with length_le_len [OF assms] have "length suites \<le> 1" by simp
  moreover from one have "suites \<noteq> []" by (auto simp: len_def)
  ultimately obtain s where "suites = [s]" by (cases suites) auto
  with one show "\<exists>s. suites = [s] \<and> length (benchmarks s) = 1" by (simp add: len_def)
next
  assume "\<exists>s. suites = [s] \<and> length (benchmarks s) = 1"
  then show "len suites = 1" by (auto simp: len_def)
qed

lemma iter_title_len:
  assumes "item \<in> set (iter gbn suites)"
  shows "di_title item =
           (if len suites = 1 then None
            else Some (if 1 < get_nsuite suites
                       then format_filename_func suites (filename (di_suite item)) @ '':''
                              @ gbn (di_benchmark item)
                       else gbn (di_benchmark item)))"
    and "di_name item = gbn (di_benchmark item)"
    and "di_filename item = format_filename_func suites (filename (di_suite item))"
proof -
  from iter_item [OF assms] obtain suite b where
    mem: "suite \<in> set suites" "b \<in> set (benchmarks suite)" and
    f: "di_suite item = suite" "di_benchmark item = b"
       "di_filename item = format_filename_func suites (filename suite)"
       "di_name item = gbn b" and
    t: "di_title item =
               (if 1 < len suites
                then (if 1 < get_nsuite suites
                      then Some (format_filename_func suites (filename suite) @ '':'' @ gbn b)
                      else Some (gbn b))
                else None)"
    by blast
  from mem have "1 \<le> length (benchmarks suite)" by (cases "benchmarks suite") auto
  with len_ge_benchmarks [OF mem(1)] have pos: "1 \<le> len suites" by simp
  then have "1 < len suites \<longleftrightarrow> len suites \<noteq> 1" by arith
  with t f show "di_title item =
           (if len suites = 1 then None
            else Some (if 1 < get_nsuite suites
                       then format_filename_func suites (filename (di_suite item)) @ '':''
                              @ gbn (di_benchmark item)
                       else gbn (di_benchmark item)))"
    by simp
  from f show "di_name item = gbn (di_benchmark item)" by simp
  from f show "di_filename item = format_filename_func suites (filename (di_suite item))"
    by simp
qed

text \<open>
  Claim C5. A loaded suite holds at least one benchmark. For every item of the iterator,
  the title is \<^verbatim>\<open>None\<close> if and only if exactly one suite is loaded and it holds exactly
  one benchmark; otherwise the title is the benchmark's name, prefixed with the suite's
  label and a colon exactly when more than one suite is loaded.
\<close>

theorem iter_title:
  assumes "item \<in> set (iter get_benchmark_name suites)"
    and "\<forall>s \<in> set suites. benchmarks s \<noteq> []"
  shows "(di_title item = None \<longleftrightarrow> (\<exists>s. suites = [s] \<and> length (benchmarks s) = 1))
         \<and> (di_title item \<noteq> None \<longrightarrow>
              di_title item =
                Some (if 1 < get_nsuite suites
                      then format_filename_func suites (filename (di_suite item)) @ '':''
                             @ get_benchmark_name (di_benchmark item)
                      else get_benchmark_name (di_benchmark item)))
         \<and> di_name item = get_benchmark_name (di_benchmark item)
         \<and> di_filename item = format_filename_func suites (filename (di_suite item))"
proof -
  note t = iter_title_len [OF assms(1)]
  note one = len_one_iff [OF assms(2)]
  from t(1) have "di_title item = None \<longleftrightarrow> len suites = 1" by simp
  then have "di_title item = None \<longleftrightarrow> (\<exists>s. suites = [s] \<and> length (benchmarks s) = 1)"
    by (simp only: one)
  moreover from t(1) have "di_title item \<noteq> None \<longrightarrow>
              di_title item =
                Some (if 1 < get_nsuite suites
                      then format_filename_func suites (filename (di_suite item)) @ '':''
                             @ get_benchmark_name (di_benchmark item)
                      else get_benchmark_name (di_benchmark item))"
    by (cases "len suites = 1") simp_all
  ultimately show ?thesis using t(2,3) by (intro conjI)
qed

text \<open>
  The only item of the file with a single benchmark has no title; the first item of the
  two result files is titled with its label and name.
\<close>

theorem iter_title_witness:
  "hd (iter display_name [suite_single]) \<in> set (iter display_name [suite_single])
   \<and> length (benchmarks suite_single) = 1
   \<and> di_title (hd (iter display_name [suite_single])) = None
   \<and> hd (iter display_name [suite_py2, suite_py3])
        \<in> set (iter display_name [suite_py2, suite_py3])
   \<and> di_title (hd (iter display_name [suite_py2, suite_py3])) = Some ''py2:telco''"
proof -
  have m1: "hd (iter display_name [suite_single]) \<in> set (iter display_name [suite_single])"
    by code_simp
  have b1: "length (benchmarks suite_single) = 1" by (simp add: suite_single_def)
  then have ne1: "\<forall>s \<in> set [suite_single]. benchmarks s \<noteq> []" by auto
  from b1 have "\<exists>s. [suite_single] = [s] \<and> length (benchmarks s) = 1" by simp
  with iter_title [OF m1 ne1, THEN conjunct1]
  have t1: "di_title (hd (iter display_name [suite_single])) = None" by (rule iffD2)
  have m2: "hd (iter display_name [suite_py2, suite_py3])
              \<in> set (iter display_name [suite_py2, suite_py3])"
    by code_simp
  have "benchmarks suite_py2 \<noteq> []" and "benchmarks suite_py3 \<noteq> []"
    by (simp_all add: suite_py2_def suite_py3_def)
  then have ne2: "\<forall>s \<in> set [suite_py2, suite_py3]. benchmarks s \<noteq> []" by simp
  note t = iter_title [OF m2 ne2]
  have "\<not> (\<exists>s. [suite_py2, suite_py3] = [s] \<and> length (benchmarks s) = 1)" by simp
  with t [THEN conjunct1]
  have some: "di_title (hd (iter display_name [suite_py2, suite_py3])) \<noteq> None" by simp
  have ev: "Some (if 1 < get_nsuite [suite_py2, suite_py3]
                  then format_filename_func [suite_py2, suite_py3]
                         (filename (di_suite (hd (iter display_name [suite_py2, suite_py3]))))
                         @ '':''
                         @ display_name (di_benchmark (hd (iter display_name [suite_py2, suite_py3])))
                  else display_name (di_benchmark (hd (iter display_name [suite_py2, suite_py3]))))
        = Some ''py2:telco''"
    by code_simp
  from t [THEN conjunct2, THEN conjunct1, rule_format, OF some] ev
  have t2: "di_title (hd (iter display_name [suite_py2, suite_py3])) = Some ''py2:telco''"
    by (rule trans)
  from m1 b1 t1 m2 t2 show ?thesis by (intro conjI)
qed

section \<open>Properties of the name filter\<close>

lemma convert_include_benchmark_absent:
  "convert_include_benchmark s name = Inl KeyError
     \<longleftrightarrow> (\<forall>b \<in> set (benchmarks s). get_name b \<noteq> Some name)"
  unfolding convert_include_benchmark_def Let_def by (auto simp: filter_empty_conv)

lemma convert_include_benchmark_present:
  "\<exists>b \<in> set (benchmarks s). get_name b = Some name \<Longrightarrow>
   convert_include_benchmark s name =
     Inr (s\<lparr>benchmarks := filter (\<lambda>b. get_name b = Some name) (benchmarks s)\<rparr>)"
  unfolding convert_include_benchmark_def Let_def by (auto simp: filter_empty_conv)

lemma include_benchmark_fails_at:
  assumes "\<forall>s \<in> set pre. \<exists>b \<in> set (benchmarks s). get_name b = Some name"
    and "\<forall>b \<in> set (benchmarks s0). get_name b \<noteq> Some name"
  shows "include_benchmark (pre @ s0 # post) name =
           (Inl (MissingBenchmarkError (filename s0) name),
            map (\<lambda>s. s\<lparr>benchmarks := filter (\<lambda>b. get_name b = Some name) (benchmarks s)\<rparr>) pre
              @ s0 # post)"
  using assms
proof (induction pre)
  case Nil
  then have "convert_include_benchmark s0 name = Inl KeyError"
    by (simp add: convert_include_benchmark_absent)
  then show ?case by (simp add: fatal_missing_benchmark_def)
next
  case (Cons s pre)
  then have "convert_include_benchmark s name =
     Inr (s\<lparr>benchmarks := filter (\<lambda>b. get_name b = Some name) (benchmarks s)\<rparr>)"
    by (simp add: convert_include_benchmark_present)
  moreover from Cons have "include_benchmark (pre @ s0 # post) name =
           (Inl (MissingBenchmarkError (filename s0) name),
            map (\<lambda>s. s\<lparr>benchmarks := filter (\<lambda>b. get_name b = Some name) (benchmarks s)\<rparr>) pre
              @ s0 # post)"
    by simp
  ultimately show ?case by simp
qed

text \<open>
  Claim C6, as stated: a failed call would leave every suite as it was. The first result
  file has a benchmark \<open>go\<close> and the second has none: the call fails on the second file
  after it has narrowed the first.
\<close>

theorem include_benchmark_counterexample:
  "fst (include_benchmark [suite_py3, suite_py2] ''go'')
     = Inl (MissingBenchmarkError ''results/py2.json'' ''go'')
   \<and> snd (include_benchmark [suite_py3, suite_py2] ''go'') \<noteq> [suite_py3, suite_py2]"
  by code_simp

text \<open>
  Claim C6, amended. When the name is absent from some suite, \<^verbatim>\<open>include_benchmark\<close>
  fails with the error that names the first suite lacking it; that suite and every later
  suite are left as they were, and every earlier suite has by then been narrowed to its
  benchmarks of that name.
\<close>

theorem include_benchmark_missing:
  assumes "\<exists>s \<in> set suites. \<forall>b \<in> set (benchmarks s). get_name b \<noteq> Some name"
  shows "fst (include_benchmark suites name) =
           Inl (MissingBenchmarkError
                  (filename (hd (dropWhile
                     (\<lambda>s. \<exists>b \<in> set (benchmarks s). get_name b = Some name) suites)))
                  name)
         \<and> snd (include_benchmark suites name) =
             map (\<lambda>s. s\<lparr>benchmarks := filter (\<lambda>b. get_name b = Some name) (benchmarks s)\<rparr>)
               (takeWhile (\<lambda>s. \<exists>b \<in> set (benchmarks s). get_name b = Some name) suites)
             @ dropWhile (\<lambda>s. \<exists>b \<in> set (benchmarks s). get_name b = Some name) suites"
proof -
  let ?has = "\<lambda>s. \<exists>b \<in> set (benchmarks s). get_name b = Some name"
  from assms have "dropWhile ?has suites \<noteq> []"
    by (auto simp: dropWhile_eq_Nil_conv)
  then obtain s0 post where d: "dropWhile ?has suites = s0 # post"
    by (cases "dropWhile ?has suites") auto
  then have "\<not> ?has s0" using hd_dropWhile [of ?has suites] by auto
  then have s0: "\<forall>b \<in> set (benchmarks s0). get_name b \<noteq> Some name" by blast
  have pre: "\<forall>s \<in> set (takeWhile ?has suites). ?has s"
    by (auto dest: set_takeWhileD)
  have "suites = takeWhile ?has suites @ s0 # post"
    using d takeWhile_dropWhile_id [of ?has suites] by simp
  then have "include_benchmark suites name =
     include_benchmark (takeWhile ?has suites @ s0 # post) name" by simp
  also have "\<dots> = (Inl (MissingBenchmarkError (filename s0) name),
            map (\<lambda>s. s\<lparr>benchmarks := filter (\<lambda>b. get_name b = Some name) (benchmarks s)\<rparr>)
              (takeWhile ?has suites) @ s0 # post)"
    by (rule include_benchmark_fails_at [OF pre s0])
  finally show ?thesis using d by simp
qed

text \<open>
  Asked for \<open>go\<close>, the second result file is the offending one and stays whole; the first
  is reduced to its benchmark \<open>go\<close>.
\<close>

theorem include_benchmark_missing_witness:
  "(\<exists>s \<in> set [suite_py3, suite_py2]. \<forall>b \<in> set (benchmarks s). get_name b \<noteq> Some ''go'')
   \<and> fst (include_benchmark [suite_py3, suite_py2] ''go'')
       = Inl (MissingBenchmarkError ''results/py2.json'' ''go'')
   \<and> snd (include_benchmark [suite_py3, suite_py2] ''go'')
       = [suite_py3\<lparr>benchmarks := [\<lparr>get_name = Some ''go'', runs = 7\<rparr>]\<rparr>, suite_py2]"
proof -
  have h: "\<exists>s \<in> set [suite_py3, suite_py2]. \<forall>b \<in> set (benchmarks s). get_name b \<noteq> Some ''go''"
    by code_simp
  have e1: "Inl (MissingBenchmarkError
                  (filename (hd (dropWhile
                     (\<lambda>s. \<exists>b \<in> set (benchmarks s). get_name b = Some ''go'')
                     [suite_py3, suite_py2])))
                  ''go'') = (Inl (MissingBenchmarkError ''results/py2.json'' ''go'') :: error + unit)"
    by code_simp
  have e2: "map (\<lambda>s. s\<lparr>benchmarks := filter (\<lambda>b. get_name b = Some ''go'') (benchmarks s)\<rparr>)
               (takeWhile (\<lambda>s. \<exists>b \<in> set (benchmarks s). get_name b = Some ''go'')
                  [suite_py3, suite_py2])
             @ dropWhile (\<lambda>s. \<exists>b \<in> set (benchmarks s). get_name b = Some ''go'')
                 [suite_py3, suite_py2]
            = [suite_py3\<lparr>benchmarks := [\<lparr>get_name = Some ''go'', runs = 7\<rparr>]\<rparr>, suite_py2]"
    by code_simp
  note t = include_benchmark_missing [OF h]
  from t [THEN conjunct1] e1
  have "fst (include_benchmark [suite_py3, suite_py2] ''go'')
       = Inl (MissingBenchmarkError ''results/py2.json'' ''go'')"
    by (rule trans)
  moreover from t [THEN conjunct2] e2
  have "snd (include_benchmark [suite_py3, suite_py2] ''go'')
       = [suite_py3\<lparr>benchmarks := [\<lparr>get_name = Some ''go'', runs = 7\<rparr>]\<rparr>, suite_py2]"
    by (rule trans)
  ultimately show ?thesis using h by (intro conjI)
qed

section \<open>Properties of the comparison command\<close>

text \<open>
  Claim C8, as stated: grouping by speed with any number of suites other than two would
  end in the second error. Asked to group one file by speed, the command ends in the
  first: the check on fewer than two suites comes before the check on grouping by speed.
\<close>

theorem cmd_compare_validation_counterexample:
  "args_action args_by_speed_one_file = ''compare_to''
   \<and> args_group_by_speed args_by_speed_one_file
   \<and> load_benchmarks example_load args_by_speed_one_file = Inr [suite_single]
   \<and> get_nsuite [suite_single] \<noteq> 2
   \<and> cmd_compare example_load args_by_speed_one_file = Inl InsufficientSuitesError
   \<and> cmd_compare example_load args_by_speed_one_file \<noteq> Inl UnsupportedConfigError"
  by code_simp

text \<open>
  Claim C8, amended. Once the suites are loaded, \<^verbatim>\<open>cmd_compare\<close> exits with the first
  error when fewer than two suites are loaded, whether or not grouping by speed is
  requested, and with the second error when grouping by speed is requested and more than
  two suites are loaded; in neither case is \<^verbatim>\<open>compare_suites\<close> called.
\<close>

theorem cmd_compare_validation:
  assumes "load_benchmarks load a = Inr data"
  shows "(get_nsuite data < 2 \<longrightarrow> cmd_compare load a = Inl InsufficientSuitesError)
         \<and> (args_action a = ''compare_to'' \<and> args_group_by_speed a \<and> 2 < get_nsuite data
              \<longrightarrow> cmd_compare load a = Inl UnsupportedConfigError)
         \<and> (get_nsuite data < 2
              \<or> (args_action a = ''compare_to'' \<and> args_group_by_speed a \<and> get_nsuite data \<noteq> 2)
              \<longrightarrow> (\<forall>call. cmd_compare load a \<noteq> Inr call))"
  using assms unfolding cmd_compare_def Let_def by auto

text \<open>
  One file, narrowed to \<open>telco\<close>, is too few for a comparison; three files cannot be
  grouped by speed.
\<close>

theorem cmd_compare_validation_witness:
  "load_benchmarks example_load args_one_file
     = Inr [suite_py2\<lparr>benchmarks := [\<lparr>get_name = Some ''telco'', runs = 1\<rparr>]\<rparr>]
   \<and> cmd_compare example_load args_one_file = Inl InsufficientSuitesError
   \<and> load_benchmarks example_load args_by_speed = Inr [suite_py2, suite_py3, suite_single]
   \<and> cmd_compare example_load args_by_speed = Inl UnsupportedConfigError"
proof -
  have l1: "load_benchmarks example_load args_one_file
     = Inr [suite_py2\<lparr>benchmarks := [\<lparr>get_name = Some ''telco'', runs = 1\<rparr>]\<rparr>]"
    by code_simp
  have l3: "load_benchmarks example_load args_by_speed = Inr [suite_py2, suite_py3, suite_single]"
    by code_simp
  have n1: "get_nsuite [suite_py2\<lparr>benchmarks := [\<lparr>get_name = Some ''telco'', runs = 1\<rparr>]\<rparr>] < 2"
    by (simp add: get_nsuite_def)
  have n3: "args_action args_by_speed = ''compare_to'' \<and> args_group_by_speed args_by_speed
            \<and> 2 < get_nsuite [suite_py2, suite_py3, suite_single]"
    by (simp add: get_nsuite_def args_by_speed_def)
  have "cmd_compare example_load args_one_file = Inl InsufficientSuitesError"
    by (rule cmd_compare_validation [OF l1, THEN conjunct1, rule_format, OF n1])
  moreover have "cmd_compare example_load args_by_speed = Inl UnsupportedConfigError"
    by (rule cmd_compare_validation
          [OF l3, THEN conjunct2, THEN conjunct1, rule_format, OF n3])
  ultimately show ?thesis using l1 l3 by (intro conjI)
qed

section \<open>Properties of the grouping by name\<close>

lemma get_benchmark_common:
  assumes "name \<in> suite_to_name_set s"
  shows "\<exists>b. get_benchmark s name = Inr b \<and> b \<in> set (benchmarks s) \<and> get_name b = Some name"
proof -
  from assms obtain b0 where "b0 \<in> set (benchmarks s)" "get_name b0 = Some name"
    by (auto simp: suite_to_name_set_eq)
  then have "find (\<lambda>bench. get_name bench = Some name) (benchmarks s) \<noteq> None"
    by (auto simp: find_None_iff)
  then obtain b where f: "find (\<lambda>bench. get_name bench = Some name) (benchmarks s) = Some b"
    by blast
  then have "b \<in> set (benchmarks s) \<and> get_name b = Some name"
    by (auto simp: find_Some_iff)
  with f show ?thesis by (simp add: get_benchmark_def)
qed

lemma group_items_common:
  assumes "\<forall>s \<in> set suites. name \<in> suite_to_name_set s"
  shows "group_items ff show_name show_filename name suites =
           Inr (map (\<lambda>s. \<lparr>gi_benchmark = projr (get_benchmark s name),
                          gi_title = (if show_name
                                      then (if \<not> show_filename then Some name
                                            else Some (ff (filename s)))
                                      else None),
                          gi_filename = ff (filename s)\<rparr>) suites)"
  using assms
proof (induction suites)
  case Nil
  show ?case by simp
next
  case (Cons s suites)
  then obtain b where b: "get_benchmark s name = Inr b"
    using get_benchmark_common [of name s] by auto
  from Cons have "group_items ff show_name show_filename name suites =
           Inr (map (\<lambda>s. \<lparr>gi_benchmark = projr (get_benchmark s name),
                          gi_title = (if show_name
                                      then (if \<not> show_filename then Some name
                                            else Some (ff (filename s)))
                                      else None),
                          gi_filename = ff (filename s)\<rparr>) suites)"
    by simp
  with b show ?case by (simp add: Let_def)
qed

lemma groups_loop_common:
  assumes "\<forall>p \<in> set inames. \<forall>s \<in> set suites. snd p \<in> suite_to_name_set s"
  shows "groups_loop ff show_name show_filename suites n inames =
           Inr (map (\<lambda>(index, name).
                  \<lparr>g2_name = name,
                   g2_benchmarks =
                     map (\<lambda>s. \<lparr>gi_benchmark = projr (get_benchmark s name),
                               gi_title = (if show_name
                                           then (if \<not> show_filename then Some name
                                                 else Some (ff (filename s)))
                                           else None),
                               gi_filename = ff (filename s)\<rparr>) suites,
                   g2_is_last = (index = n - 1)\<rparr>) inames)"
  using assms
proof (induction inames)
  case Nil
  show ?case by simp
next
  case (Cons p inames)
  obtain index name where p: "p = (index, name)" by (cases p)
  with Cons.prems have "\<forall>s \<in> set suites. name \<in> suite_to_name_set s" by simp
  note items = group_items_common [OF this, of ff show_name show_filename]
  from Cons have "groups_loop ff show_name show_filename suites n inames =
           Inr (map (\<lambda>(index, name).
                  \<lparr>g2_name = name,
                   g2_benchmarks =
                     map (\<lambda>s. \<lparr>gi_benchmark = projr (get_benchmark s name),
                               gi_title = (if show_name
                                           then (if \<not> show_filename then Some name
                                                 else Some (ff (filename s)))
                                           else None),
                               gi_filename = ff (filename s)\<rparr>) suites,
                   g2_is_last = (index = n - 1)\<rparr>) inames)"
    by simp
  with items p show ?case by simp
qed

lemma group_by_name_names_InrD:
  assumes "group_by_name_names suites = Inr names"
  shows "suites \<noteq> []" and "names = (\<Inter>s \<in> set suites. suite_to_name_set s)"
    and "finite names"
proof -
  from assms show ne: "suites \<noteq> []" by (cases suites) auto
  with assms show eq: "names = (\<Inter>s \<in> set suites. suite_to_name_set s)"
    by (simp add: group_by_name_names_Inter)
  from ne obtain s where "s \<in> set suites" by (cases suites) auto
  with eq have "names \<subseteq> suite_to_name_set s" by auto
  then show "finite names" by (rule finite_subset) (rule finite_suite_to_name_set)
qed

lemma group_by_name_common:
  assumes "group_by_name_names suites = Inr names"
  shows "group_by_name suites =
           Inr (map (\<lambda>(index, name).
                  \<lparr>g2_name = name,
                   g2_benchmarks =
                     map (\<lambda>s. \<lparr>gi_benchmark = projr (get_benchmark s name),
                               gi_title = (if 1 < card names
                                           then (if \<not> 1 < get_nsuite suites then Some name
                                                 else Some (format_filename_func suites (filename s)))
                                           else None),
                               gi_filename = format_filename_func suites (filename s)\<rparr>) suites,
                   g2_is_last = (index = card names - 1)\<rparr>)
                (enumerate 0 (sorted_list_of_set names)))"
proof -
  note d = group_by_name_names_InrD [OF assms]
  have "\<forall>p \<in> set (enumerate 0 (sorted_list_of_set names)).
          \<forall>s \<in> set suites. snd p \<in> suite_to_name_set s"
  proof (intro ballI)
    fix p s
    assume "p \<in> set (enumerate 0 (sorted_list_of_set names))" and s: "s \<in> set suites"
    then have "snd p \<in> snd ` set (enumerate 0 (sorted_list_of_set names))"
      by simp
    then have "snd p \<in> set (sorted_list_of_set names)"
      by (simp only: set_map [symmetric] map_snd_enumerate)
    with d(3) have "snd p \<in> names" by simp
    with d(2) s show "snd p \<in> suite_to_name_set s" by auto
  qed
  note loop = groups_loop_common [OF this]
  show ?thesis
    unfolding group_by_name_def Let_def assms
    by (simp only: sum.case loop length_sorted_list_of_set)
qed

lemma sorted_last_Max:
  fixes xs :: "'a::linorder list"
  assumes "sorted xs" and "xs \<noteq> []"
  shows "last xs = Max (set xs)"
proof -
  from assms(2) obtain ys x where xs: "xs = ys @ [x]" by (cases xs rule: rev_cases) auto
  with assms(1) have "\<forall>y \<in> set ys. y \<le> x" by (auto simp: sorted_append)
  then have "Max (set xs) = x" unfolding xs by (intro Max_eqI) auto
  with xs show ?thesis by simp
qed

lemma group_by_name_group_names:
  assumes "group_by_name_names suites = Inr names" and "group_by_name suites = Inr groups"
  shows "map g2_name groups = sorted_list_of_set names"
proof -
  have "map g2_name groups = map snd (enumerate 0 (sorted_list_of_set names))"
    using assms(2) unfolding group_by_name_common [OF assms(1)]
    by (auto simp: comp_def case_prod_beta)
  then show ?thesis by (simp only: map_snd_enumerate)
qed

lemma group_by_name_group:
  assumes "group_by_name_names suites = Inr names" and "group_by_name suites = Inr groups"
    and "g \<in> set groups"
  shows "g2_name g \<in> names"
    and "g2_benchmarks g =
           map (\<lambda>s. \<lparr>gi_benchmark = projr (get_benchmark s (g2_name g)),
                     gi_title = (if 1 < card names
                                 then (if \<not> 1 < get_nsuite suites then Some (g2_name g)
                                       else Some (format_filename_func suites (filename s)))
                                 else None),
                     gi_filename = format_filename_func suites (filename s)\<rparr>) suites"
    and "g2_is_last g = (g2_name g = Max names)"
proof -
  let ?xs = "sorted_list_of_set names"
  note d = group_by_name_names_InrD [OF assms(1)]
  from assms(2,3) obtain p where p: "p \<in> set (enumerate 0 ?xs)" and
    g: "g = \<lparr>g2_name = snd p,
             g2_benchmarks =
               map (\<lambda>s. \<lparr>gi_benchmark = projr (get_benchmark s (snd p)),
                         gi_title = (if 1 < card names
                                     then (if \<not> 1 < get_nsuite suites then Some (snd p)
                                           else Some (format_filename_func suites (filename s)))
                                     else None),
                         gi_filename = format_filename_func suites (filename s)\<rparr>) suites,
             g2_is_last = (fst p = card names - 1)\<rparr>"
    unfolding group_by_name_common [OF assms(1)] by (auto simp: case_prod_beta)
  from p have i: "fst p < length ?xs" and n: "?xs ! fst p = snd p"
    by (auto simp: in_set_enumerate_eq)
  from i n have "snd p \<in> set ?xs" by (metis nth_mem)
  with d(3) have mem: "snd p \<in> names" by simp
  with g show "g2_name g \<in> names" by simp
  from g show "g2_benchmarks g =
           map (\<lambda>s. \<lparr>gi_benchmark = projr (get_benchmark s (g2_name g)),
                     gi_title = (if 1 < card names
                                 then (if \<not> 1 < get_nsuite suites then Some (g2_name g)
                                       else Some (format_filename_func suites (filename s)))
                                 else None),
                     gi_filename = format_filename_func suites (filename s)\<rparr>) suites"
    by simp
  have len: "length ?xs = card names" by simp
  from i have "length ?xs \<noteq> 0" by simp
  then have ne: "?xs \<noteq> []" by (simp only: length_0_conv not_False_eq_True)
  have "Max names = last ?xs"
    using sorted_last_Max [of ?xs] ne d(3) by simp
  also have "\<dots> = ?xs ! (card names - 1)"
    using ne by (simp add: last_conv_nth)
  finally have mx: "Max names = ?xs ! (card names - 1)" .
  have "card names - 1 < length ?xs" using i by simp
  with i have "(?xs ! fst p = ?xs ! (card names - 1)) = (fst p = card names - 1)"
    by (intro nth_eq_iff_index_eq) simp_all
  with n mx have "(snd p = Max names) = (fst p = card names - 1)" by simp
  with g show "g2_is_last g = (g2_name g = Max names)" by simp
qed

text \<open>
  Claim C2. Where the common names are \<open>names\<close>, \<^verbatim>\<open>group_by_name\<close> returns one group
  per common name, the groups in ascending order of their names; each group has one
  member per suite, in load order, the member at position \<open>i\<close> being a benchmark of the
  \<open>i\<close>-th suite with the group's name; and \<^verbatim>\<open>is_last\<close> holds exactly for the group of
  the greatest common name.
\<close>

theorem group_by_name_groups:
  assumes "group_by_name_names suites = Inr names"
  shows "\<exists>groups. group_by_name suites = Inr groups
           \<and> map g2_name groups = sorted_list_of_set names
           \<and> set (map g2_name groups) = names
           \<and> distinct (map g2_name groups)
           \<and> sorted (map g2_name groups)
           \<and> (\<forall>g \<in> set groups.
                 length (g2_benchmarks g) = get_nsuite suites
                 \<and> (\<forall>i < get_nsuite suites.
                       gi_benchmark (g2_benchmarks g ! i) \<in> set (benchmarks (suites ! i))
                       \<and> get_name (gi_benchmark (g2_benchmarks g ! i)) = Some (g2_name g))
                 \<and> (g2_is_last g \<longleftrightarrow> g2_name g = Max names))"
proof -
  note d = group_by_name_names_InrD [OF assms]
  from group_by_name_common [OF assms] obtain groups where
    groups: "group_by_name suites = Inr groups" by blast
  note nm = group_by_name_group_names [OF assms groups]
  have "\<forall>g \<in> set groups.
                 length (g2_benchmarks g) = get_nsuite suites
                 \<and> (\<forall>i < get_nsuite suites.
                       gi_benchmark (g2_benchmarks g ! i) \<in> set (benchmarks (suites ! i))
                       \<and> get_name (gi_benchmark (g2_benchmarks g ! i)) = Some (g2_name g))
                 \<and> (g2_is_last g \<longleftrightarrow> g2_name g = Max names)"
  proof (intro ballI conjI allI impI)
    fix g assume g: "g \<in> set groups"
    note m = group_by_name_group [OF assms groups g]
    show "length (g2_benchmarks g) = get_nsuite suites"
      by (simp add: m(2) get_nsuite_def)
    show "g2_is_last g = (g2_name g = Max names)" by (rule m(3))
    fix i assume "i < get_nsuite suites"
    then have i: "i < length suites" by (simp add: get_nsuite_def)
    then have "suites ! i \<in> set suites" by simp
    with m(1) d(2) have "g2_name g \<in> suite_to_name_set (suites ! i)" by auto
    from get_benchmark_common [OF this] obtain b where
      b: "get_benchmark (suites ! i) (g2_name g) = Inr b"
         "b \<in> set (benchmarks (suites ! i))" "get_name b = Some (g2_name g)"
      by blast
    from i b(1) have "gi_benchmark (g2_benchmarks g ! i) = b"
      by (simp add: m(2))
    with b show "gi_benchmark (g2_benchmarks g ! i) \<in> set (benchmarks (suites ! i))"
      and "get_name (gi_benchmark (g2_benchmarks g ! i)) = Some (g2_name g)"
      by simp_all
  qed
  moreover from d(3) have "set (map g2_name groups) = names"
    and "distinct (map g2_name groups)" and "sorted (map g2_name groups)"
    unfolding nm by simp_all
  ultimately show ?thesis using groups nm by blast
qed

text \<open>
  The two result files give the groups \<open>call_simple\<close> and \<open>telco\<close>, the second being the
  last; each group holds the benchmark of the first file, then that of the second.
\<close>

theorem group_by_name_groups_witness:
  "group_by_name_names [suite_py2, suite_py3] = Inr {''call_simple'', ''telco''}
   \<and> map g2_name (projr (group_by_name [suite_py2, suite_py3])) = [''call_simple'', ''telco'']
   \<and> map g2_is_last (projr (group_by_name [suite_py2, suite_py3])) = [False, True]
   \<and> map (\<lambda>g. map (\<lambda>m. runs (gi_benchmark m)) (g2_benchmarks g))
         (projr (group_by_name [suite_py2, suite_py3])) = [[2, 4], [1, 6]]"
proof -
  have n: "group_by_name_names [suite_py2, suite_py3] = Inr {''call_simple'', ''telco''}"
    by code_simp
  from group_by_name_groups [OF n] obtain groups where
    g: "group_by_name [suite_py2, suite_py3] = Inr groups" and
    nm: "map g2_name groups = sorted_list_of_set {''call_simple'', ''telco''}"
    by blast
  have "sorted_list_of_set {''call_simple'', ''telco''} = [''call_simple'', ''telco'']"
    by code_simp
  with g nm have "map g2_name (projr (group_by_name [suite_py2, suite_py3]))
                    = [''call_simple'', ''telco'']"
    by simp
  moreover have "map g2_is_last (projr (group_by_name [suite_py2, suite_py3])) = [False, True]"
    by code_simp
  moreover have "map (\<lambda>g. map (\<lambda>m. runs (gi_benchmark m)) (g2_benchmarks g))
         (projr (group_by_name [suite_py2, suite_py3])) = [[2, 4], [1, 6]]"
    by code_simp
  ultimately show ?thesis using n by (intro conjI)
qed

text \<open>
  Claim C7. In the groups of \<^verbatim>\<open>group_by_name\<close>, the title of the member for the \<open>i\<close>-th
  suite is \<^verbatim>\<open>None\<close> when there is one common name; with more than one common name it
  is the name itself when one suite is loaded, and the display label of the \<open>i\<close>-th suite
  when several are.
\<close>

theorem group_by_name_titles:
  assumes "group_by_name_names suites = Inr names"
    and "group_by_name suites = Inr groups"
    and "g \<in> set groups"
    and "i < get_nsuite suites"
  shows "gi_title (g2_benchmarks g ! i) =
           (if card names = 1 then None
            else if get_nsuite suites = 1 then Some (g2_name g)
            else Some (format_filename_func suites (filename (suites ! i))))
         \<and> gi_filename (g2_benchmarks g ! i) = format_filename_func suites (filename (suites ! i))"
proof -
  note d = group_by_name_names_InrD [OF assms(1)]
  note m = group_by_name_group [OF assms(1,2,3)]
  from assms(4) have i: "i < length suites" by (simp add: get_nsuite_def)
  from m(1) d(3) have nz: "card names \<noteq> 0" by auto
  from i have ns: "get_nsuite suites \<noteq> 0" by (auto simp: get_nsuite_def)
  from i have t: "gi_title (g2_benchmarks g ! i) =
           (if 1 < card names
            then (if \<not> 1 < get_nsuite suites then Some (g2_name g)
                  else Some (format_filename_func suites (filename (suites ! i))))
            else None)"
    and f: "gi_filename (g2_benchmarks g ! i)
              = format_filename_func suites (filename (suites ! i))"
    unfolding m(2) by simp_all
  from nz ns t have "gi_title (g2_benchmarks g ! i) =
           (if card names = 1 then None
            else if get_nsuite suites = 1 then Some (g2_name g)
            else Some (format_filename_func suites (filename (suites ! i))))"
    by auto
  with f show ?thesis by (intro conjI)
qed

text \<open>With two result files and two common names, the members are titled by their labels.\<close>

theorem group_by_name_titles_witness:
  "group_by_name_names [suite_py2, suite_py3] = Inr {''call_simple'', ''telco''}
   \<and> hd (projr (group_by_name [suite_py2, suite_py3]))
        \<in> set (projr (group_by_name [suite_py2, suite_py3]))
   \<and> 1 < get_nsuite [suite_py2, suite_py3]
   \<and> gi_title (g2_benchmarks (hd (projr (group_by_name [suite_py2, suite_py3]))) ! 1)
        = Some ''py3''"
proof -
  have n: "group_by_name_names [suite_py2, suite_py3] = Inr {''call_simple'', ''telco''}"
    by code_simp
  have r: "group_by_name [suite_py2, suite_py3]
             = Inr (projr (group_by_name [suite_py2, suite_py3]))"
    by code_simp
  have g: "hd (projr (group_by_name [suite_py2, suite_py3]))
        \<in> set (projr (group_by_name [suite_py2, suite_py3]))"
    by code_simp
  have i: "1 < get_nsuite [suite_py2, suite_py3]" by (simp add: get_nsuite_def)
  have ev: "(if card {''call_simple'', ''telco''} = 1 then None
            else if get_nsuite [suite_py2, suite_py3] = 1
                 then Some (g2_name (hd (projr (group_by_name [suite_py2, suite_py3]))))
            else Some (format_filename_func [suite_py2, suite_py3]
                         (filename ([suite_py2, suite_py3] ! 1)))) = Some ''py3''"
    by code_simp
  from group_by_name_titles [OF n r g i, THEN conjunct1] ev
  have "gi_title (g2_benchmarks (hd (projr (group_by_name [suite_py2, suite_py3]))) ! 1)
        = Some ''py3''"
    by (rule trans)
  with n g i show ?thesis by (intro conjI)
qed

section \<open>Properties of the ignored benchmarks\<close>

lemma not_common_conv:
  "(case get_name b of None \<Rightarrow> True | Some name \<Rightarrow> name \<notin> names)
     = (get_name b \<notin> Some ` names)"
  by (cases "get_name b") auto

lemma concat_map_if:
  "concat (map (\<lambda>x. if P (f x) then [(x, f x)] else []) xs)
     = filter (\<lambda>(x, y). P y) (map (\<lambda>x. (x, f x)) xs)"
  by (induction xs) simp_all

lemma group_by_name_ignored_common:
  assumes "group_by_name_names suites = Inr names"
  shows "group_by_name_ignored suites =
           Inr (filter (\<lambda>(s, ignored). ignored \<noteq> [])
                  (map (\<lambda>s. (s, filter (\<lambda>b. get_name b \<notin> Some ` names) (benchmarks s)))
                     suites))"
  unfolding group_by_name_ignored_def Let_def assms not_common_conv
  by (simp only: sum.case concat_map_if [where P = "\<lambda>y. y \<noteq> []"])

text \<open>
  Claim C3. Where the common names are \<open>names\<close>, \<^verbatim>\<open>group_by_name_ignored\<close> yields, for
  each suite in load order that has such benchmarks, the benchmarks of the suite whose
  name is not a common name, in the suite's order. For a suite it yields, the ignored
  benchmarks and the benchmarks with a common name make up the suite's benchmarks, each
  once; a suite it omits has only benchmarks with a common name.
\<close>

theorem group_by_name_ignored_partition:
  assumes "group_by_name_names suites = Inr names"
  shows "\<exists>result. group_by_name_ignored suites = Inr result
           \<and> result = filter (\<lambda>(s, ignored). ignored \<noteq> [])
                        (map (\<lambda>s. (s, filter (\<lambda>b. get_name b \<notin> Some ` names) (benchmarks s)))
                           suites)
           \<and> (\<forall>(s, ignored) \<in> set result.
                 s \<in> set suites
                 \<and> mset ignored + mset (filter (\<lambda>b. get_name b \<in> Some ` names) (benchmarks s))
                     = mset (benchmarks s)
                 \<and> set ignored \<inter> set (filter (\<lambda>b. get_name b \<in> Some ` names) (benchmarks s))
                     = {})
           \<and> (\<forall>s \<in> set suites. s \<notin> fst ` set result \<longrightarrow>
                 filter (\<lambda>b. get_name b \<in> Some ` names) (benchmarks s) = benchmarks s)"
proof -
  let ?ign = "\<lambda>s. filter (\<lambda>b. get_name b \<notin> Some ` names) (benchmarks s)"
  let ?result = "filter (\<lambda>(s, ignored). ignored \<noteq> []) (map (\<lambda>s. (s, ?ign s)) suites)"
  have r: "group_by_name_ignored suites = Inr ?result"
    by (rule group_by_name_ignored_common [OF assms])
  have part: "\<forall>(s, ignored) \<in> set ?result.
                 s \<in> set suites
                 \<and> mset ignored + mset (filter (\<lambda>b. get_name b \<in> Some ` names) (benchmarks s))
                     = mset (benchmarks s)
                 \<and> set ignored \<inter> set (filter (\<lambda>b. get_name b \<in> Some ` names) (benchmarks s))
                     = {}"
  proof (intro ballI, clarify)
    fix s ignored
    assume "(s, ignored) \<in> set ?result"
    then have s: "s \<in> set suites" and i: "ignored = ?ign s" by auto
    have "mset (?ign s) + mset (filter (\<lambda>b. get_name b \<in> Some ` names) (benchmarks s))
            = mset (benchmarks s)"
      by (induction "benchmarks s") (auto simp: add.commute)
    moreover have "set (?ign s) \<inter> set (filter (\<lambda>b. get_name b \<in> Some ` names) (benchmarks s))
                     = {}"
      by auto
    ultimately show "s \<in> set suites
                 \<and> mset ignored + mset (filter (\<lambda>b. get_name b \<in> Some ` names) (benchmarks s))
                     = mset (benchmarks s)
                 \<and> set ignored \<inter> set (filter (\<lambda>b. get_name b \<in> Some ` names) (benchmarks s))
                     = {}"
      using s i by simp
  qed
  have omit: "\<forall>s \<in> set suites. s \<notin> fst ` set ?result \<longrightarrow>
                 filter (\<lambda>b. get_name b \<in> Some ` names) (benchmarks s) = benchmarks s"
  proof (intro ballI impI)
    fix s
    assume s: "s \<in> set suites" and "s \<notin> fst ` set ?result"
    then have "(s, ?ign s) \<notin> set ?result" by force
    with s have "?ign s = []" by auto
    then show "filter (\<lambda>b. get_name b \<in> Some ` names) (benchmarks s) = benchmarks s"
      by (auto simp: filter_empty_conv filter_id_conv)
  qed
  from r part omit show ?thesis by blast
qed

text \<open>
  Of the two result files, the first has its anonymous benchmark ignored, the second its
  anonymous benchmark and \<open>go\<close>.
\<close>

theorem group_by_name_ignored_partition_witness:
  "group_by_name_names [suite_py2, suite_py3] = Inr {''call_simple'', ''telco''}
   \<and> group_by_name_ignored [suite_py2, suite_py3] =
       Inr [(suite_py2, [\<lparr>get_name = None, runs = 3\<rparr>]),
            (suite_py3, [\<lparr>get_name = None, runs = 5\<rparr>, \<lparr>get_name = Some ''go'', runs = 7\<rparr>])]"
proof -
  have n: "group_by_name_names [suite_py2, suite_py3] = Inr {''call_simple'', ''telco''}"
    by code_simp
  from group_by_name_ignored_partition [OF n] obtain result where
    r: "group_by_name_ignored [suite_py2, suite_py3] = Inr result" and
    e: "result = filter (\<lambda>(s, ignored). ignored \<noteq> [])
                   (map (\<lambda>s. (s, filter (\<lambda>b. get_name b \<notin> Some ` {''call_simple'', ''telco''})
                                    (benchmarks s)))
                      [suite_py2, suite_py3])"
    by blast
  have "filter (\<lambda>(s, ignored). ignored \<noteq> [])
          (map (\<lambda>s. (s, filter (\<lambda>b. get_name b \<notin> Some ` {''call_simple'', ''telco''})
                           (benchmarks s)))
             [suite_py2, suite_py3])
        = [(suite_py2, [\<lparr>get_name = None, runs = 3\<rparr>]),
           (suite_py3, [\<lparr>get_name = None, runs = 5\<rparr>, \<lparr>get_name = Some ''go'', runs = 7\<rparr>])]"
    by code_simp
  with r e have "group_by_name_ignored [suite_py2, suite_py3] =
       Inr [(suite_py2, [\<lparr>get_name = None, runs = 3\<rparr>]),
            (suite_py3, [\<lparr>get_name = None, runs = 5\<rparr>, \<lparr>get_name = Some ''go'', runs = 7\<rparr>])]"
    by (simp only:)
  with n show ?thesis by (intro conjI)
qed

section \<open>Anonymous benchmarks\<close>

text \<open>
  Claim C10. With at least one suite loaded, a benchmark whose name is \<^verbatim>\<open>None\<close> or the
  empty string has no common name, is the benchmark of no member of a group of
  \<^verbatim>\<open>group_by_name\<close>, and is listed by \<^verbatim>\<open>group_by_name_ignored\<close> among the ignored
  benchmarks of every suite that holds it.
\<close>

theorem anonymous_benchmark_ignored:
  assumes "suites \<noteq> []" and "get_name b = None \<or> get_name b = Some []"
  shows "\<exists>names groups ignored.
           group_by_name_names suites = Inr names
           \<and> group_by_name suites = Inr groups
           \<and> group_by_name_ignored suites = Inr ignored
           \<and> get_name b \<notin> Some ` names
           \<and> (\<forall>g \<in> set groups. \<forall>m \<in> set (g2_benchmarks g). gi_benchmark m \<noteq> b)
           \<and> (\<forall>s \<in> set suites. b \<in> set (benchmarks s) \<longrightarrow>
                 (\<exists>bs. (s, bs) \<in> set ignored \<and> b \<in> set bs))"
proof -
  let ?names = "\<Inter>s \<in> set suites. suite_to_name_set s"
  have n: "group_by_name_names suites = Inr ?names"
    by (rule group_by_name_names_Inter [OF assms(1)])
  note d = group_by_name_names_InrD [OF n]
  from assms(1) obtain s0 where "s0 \<in> set suites" by (cases suites) auto
  then have "?names \<subseteq> suite_to_name_set s0" by auto
  then have nonempty: "[] \<notin> ?names" by (auto simp: suite_to_name_set_eq)
  with assms(2) have anon: "get_name b \<notin> Some ` ?names" by auto
  from group_by_name_common [OF n] obtain groups where
    groups: "group_by_name suites = Inr groups" by blast
  let ?ign = "\<lambda>s. filter (\<lambda>b. get_name b \<notin> Some ` ?names) (benchmarks s)"
  let ?ignored = "filter (\<lambda>(s, ignored). ignored \<noteq> []) (map (\<lambda>s. (s, ?ign s)) suites)"
  have ignored: "group_by_name_ignored suites = Inr ?ignored"
    by (rule group_by_name_ignored_common [OF n])
  have members: "\<forall>g \<in> set groups. \<forall>m \<in> set (g2_benchmarks g). gi_benchmark m \<noteq> b"
  proof (intro ballI)
    fix g m
    assume g: "g \<in> set groups" and m: "m \<in> set (g2_benchmarks g)"
    note grp = group_by_name_group [OF n groups g]
    from m obtain s where s: "s \<in> set suites"
      and mb: "gi_benchmark m = projr (get_benchmark s (g2_name g))"
      unfolding grp(2) by auto
    from grp(1) s have "g2_name g \<in> suite_to_name_set s" by auto
    from get_benchmark_common [OF this] mb
    have "get_name (gi_benchmark m) = Some (g2_name g)" by auto
    moreover from grp(1) nonempty have "g2_name g \<noteq> []" by auto
    ultimately show "gi_benchmark m \<noteq> b" using assms(2) by auto
  qed
  have listed: "\<forall>s \<in> set suites. b \<in> set (benchmarks s) \<longrightarrow>
                 (\<exists>bs. (s, bs) \<in> set ?ignored \<and> b \<in> set bs)"
  proof (intro ballI impI)
    fix s
    assume s: "s \<in> set suites" and b: "b \<in> set (benchmarks s)"
    with anon have in_ign: "b \<in> set (?ign s)" by simp
    then have "?ign s \<noteq> []" by (auto simp: filter_empty_conv)
    with s have "(s, ?ign s) \<in> set ?ignored" by auto
    with in_ign show "\<exists>bs. (s, bs) \<in> set ?ignored \<and> b \<in> set bs" by blast
  qed
  from n groups ignored anon members listed show ?thesis by blast
qed

text \<open>
  Both result files hold an anonymous benchmark; that of the first file is among the
  ignored benchmarks of the first file and in no group.
\<close>

theorem anonymous_benchmark_ignored_witness:
  "[suite_py2, suite_py3] \<noteq> []
   \<and> get_name \<lparr>get_name = None, runs = 3::nat\<rparr> = None
   \<and> \<lparr>get_name = None, runs = 3\<rparr> \<in> set (benchmarks suite_py2)
   \<and> (\<exists>bs. (suite_py2, bs) \<in> set (projr (group_by_name_ignored [suite_py2, suite_py3]))
            \<and> \<lparr>get_name = None, runs = 3\<rparr> \<in> set bs)
   \<and> map (\<lambda>g. map (\<lambda>m. get_name (gi_benchmark m)) (g2_benchmarks g))
         (projr (group_by_name [suite_py2, suite_py3]))
       = [[Some ''call_simple'', Some ''call_simple''], [Some ''telco'', Some ''telco'']]"
proof -
  have ne: "[suite_py2, suite_py3] \<noteq> []" by simp
  have a: "get_name \<lparr>get_name = None, runs = 3::nat\<rparr> = None" by simp
  have mem: "\<lparr>get_name = None, runs = 3\<rparr> \<in> set (benchmarks suite_py2)"
    by (simp add: suite_py2_def)
  have s: "suite_py2 \<in> set [suite_py2, suite_py3]" by simp
  from anonymous_benchmark_ignored [OF ne disjI1, OF a] obtain ignored where
    i: "group_by_name_ignored [suite_py2, suite_py3] = Inr ignored" and
    l: "\<forall>s \<in> set [suite_py2, suite_py3].
          \<lparr>get_name = None, runs = 3\<rparr> \<in> set (benchmarks s) \<longrightarrow>
            (\<exists>bs. (s, bs) \<in> set ignored \<and> \<lparr>get_name = None, runs = 3\<rparr> \<in> set bs)"
    by blast
  from l [rule_format, OF s mem] i
  have "\<exists>bs. (suite_py2, bs) \<in> set (projr (group_by_name_ignored [suite_py2, suite_py3]))
            \<and> \<lparr>get_name = None, runs = 3\<rparr> \<in> set bs"
    by simp
  moreover have "map (\<lambda>g. map (\<lambda>m. get_name (gi_benchmark m)) (g2_benchmarks g))
         (projr (group_by_name [suite_py2, suite_py3]))
       = [[Some ''call_simple'', Some ''call_simple''], [Some ''telco'', Some ''telco'']]"
    by code_simp
  ultimately show ?thesis using ne a mem by (intro conjI)
qed

end
